theory Spec2Isabelle
  imports Main
begin

section \<open>Python strings\<close>

text \<open>
  A Python \<open>str\<close> is a sequence of code points. The model is \<open>string\<close>, a list of
  8-bit characters, each standing for the code point of the same number (the Latin-1
  range); code points from 256 on are outside the model. The character classes below
  are those of CPython on that range.
\<close>

definition newline :: char where
  "newline = CHR 0x0A"

definition is_space :: "char \<Rightarrow> bool" where
  \<comment> \<open>\<open>str.isspace\<close>, also the class \<open>\s\<close> of \<open>re\<close> on a \<open>str\<close> pattern\<close>
  "is_space c = (of_char c \<in> set [9, 10, 11, 12, 13, 28, 29, 30, 31, 32, 133, 160 :: nat])"

definition is_digit :: "char \<Rightarrow> bool" where
  \<comment> \<open>the decimal digits, also the class \<open>\d\<close> of \<open>re\<close>\<close>
  "is_digit c = (48 \<le> (of_char c :: nat) \<and> (of_char c :: nat) \<le> 57)"

definition digit_val :: "char \<Rightarrow> nat" where
  "digit_val c = of_char c - 48"

definition digit_char :: "nat \<Rightarrow> char" where
  "digit_char n = char_of (48 + n)"

definition lower_char :: "char \<Rightarrow> char" where
  "lower_char c =
     (let n = (of_char c :: nat)
      in if (65 \<le> n \<and> n \<le> 90) \<or> (192 \<le> n \<and> n \<le> 222 \<and> n \<noteq> 215)
         then char_of (n + 32) else c)"

definition lower :: "string \<Rightarrow> string" where
  \<comment> \<open>\<open>str.lower\<close>\<close>
  "lower s = map lower_char s"

definition strip :: "string \<Rightarrow> string" where
  \<comment> \<open>\<open>str.strip()\<close>\<close>
  "strip s = rev (dropWhile is_space (rev (dropWhile is_space s)))"

fun startswith :: "string \<Rightarrow> string \<Rightarrow> bool" where
  \<comment> \<open>\<open>s.startswith(p)\<close>, the prefix first\<close>
  "startswith [] s = True"
| "startswith (p # ps) [] = False"
| "startswith (p # ps) (c # cs) = (p = c \<and> startswith ps cs)"

fun contains :: "string \<Rightarrow> string \<Rightarrow> bool" where
  \<comment> \<open>\<open>p in s\<close> for strings, also \<open>re.search\<close> of a pattern without metacharacters\<close>
  "contains p [] = startswith p []"
| "contains p (c # cs) = (startswith p (c # cs) \<or> contains p cs)"

fun split_on :: "char \<Rightarrow> string \<Rightarrow> string list" where
  \<comment> \<open>\<open>s.split(sep)\<close> for a separator of one character\<close>
  "split_on sep [] = [[]]"
| "split_on sep (c # cs) =
     (if c = sep then [] # split_on sep cs
      else (case split_on sep cs of
              [] \<Rightarrow> [[c]]
            | w # ws \<Rightarrow> (c # w) # ws))"

fun split_ws :: "string \<Rightarrow> string list" where
  \<comment> \<open>\<open>s.split()\<close>: the maximal runs of characters that are not whitespace\<close>
  "split_ws [] = []"
| "split_ws (c # cs) =
     (if is_space c then split_ws cs
      else (case cs of
              [] \<Rightarrow> [[c]]
            | d # _ \<Rightarrow>
                if is_space d then [c] # split_ws cs
                else (case split_ws cs of
                        [] \<Rightarrow> [[c]]
                      | w # ws \<Rightarrow> (c # w) # ws)))"

fun join :: "string \<Rightarrow> string list \<Rightarrow> string" where
  \<comment> \<open>\<open>sep.join(xs)\<close>\<close>
  "join sep [] = []"
| "join sep [x] = x"
| "join sep (x # y # ys) = x @ sep @ join sep (y # ys)"

section \<open>Python integers and their text\<close>

datatype py_error = KeyError | IndexError | ValueError | OverflowError

fun str_nat :: "nat \<Rightarrow> string" where
  "str_nat n = (if n < 10 then [digit_char n] else str_nat (n div 10) @ [digit_char (n mod 10)])"

declare str_nat.simps [simp del]

definition str_int :: "int \<Rightarrow> string" where
  \<comment> \<open>\<open>str(i)\<close> of an \<open>int\<close>\<close>
  "str_int i = (if i < 0 then CHR ''-'' # str_nat (nat (- i)) else str_nat (nat i))"

definition zero_pad :: "nat \<Rightarrow> int \<Rightarrow> string" where
  \<comment> \<open>the formats \<open>%02d\<close>, \<open>%04d\<close>, \<open>%06d\<close> on a number that is not negative\<close>
  "zero_pad w i = (let s = str_nat (nat i) in replicate (w - length s) CHR ''0'' @ s)"

fun digits_value :: "nat \<Rightarrow> string \<Rightarrow> nat" where
  "digits_value acc [] = acc"
| "digits_value acc (c # cs) =
     (if c = CHR ''_'' then digits_value acc cs else digits_value (10 * acc + digit_val c) cs)"

fun digit_run :: "string \<Rightarrow> bool" where
  \<comment> \<open>digits, with single underscores allowed between two digits\<close>
  "digit_run [] = False"
| "digit_run [c] = is_digit c"
| "digit_run (c # d # cs) =
     (is_digit c \<and> (if d = CHR ''_'' then digit_run cs else digit_run (d # cs)))"

definition int_digits :: "string \<Rightarrow> py_error + int" where
  "int_digits s = (if digit_run s then Inr (int (digits_value 0 s)) else Inl ValueError)"

definition py_int :: "string \<Rightarrow> py_error + int" where
  \<comment> \<open>\<open>int(s)\<close> of a \<open>str\<close>: surrounding whitespace, an optional sign, decimal digits\<close>
  "py_int s =
     (case strip s of
        [] \<Rightarrow> Inl ValueError
      | c # cs \<Rightarrow>
          if c = CHR ''-'' then (case int_digits cs of Inl e \<Rightarrow> Inl e | Inr v \<Rightarrow> Inr (- v))
          else if c = CHR ''+'' then int_digits cs
          else int_digits (c # cs))"

section \<open>Calendar dates\<close>

record datetime =
  year :: int
  month :: int
  day :: int
  hour :: int
  minute :: int
  second :: int
  microsecond :: int

type_synonym pydate = "int \<times> int \<times> int"

definition date_of :: "datetime \<Rightarrow> pydate" where
  \<comment> \<open>\<open>dt.date()\<close>\<close>
  "date_of dt = (year dt, month dt, day dt)"

definition is_leap :: "int \<Rightarrow> bool" where
  "is_leap y = (y mod 4 = 0 \<and> (if y mod 100 = 0 then y mod 400 = 0 else True))"

definition days_in_month :: "int \<Rightarrow> int \<Rightarrow> int" where
  "days_in_month y m =
     (if m = 2 then (if is_leap y then 29 else 28)
      else if m = 4 \<or> m = 6 \<or> m = 9 \<or> m = 11 then 30
      else 31)"

definition c_int_range :: "int \<Rightarrow> bool" where
  "c_int_range i = (- 2147483648 \<le> i \<and> i \<le> 2147483647)"

definition valid_date :: "int \<Rightarrow> int \<Rightarrow> int \<Rightarrow> bool" where
  "valid_date y m d = (1 \<le> y \<and> y \<le> 9999 \<and> 1 \<le> m \<and> m \<le> 12 \<and> 1 \<le> d \<and> d \<le> days_in_month y m)"

definition midnight :: "int \<Rightarrow> int \<Rightarrow> int \<Rightarrow> datetime" where
  "midnight y m d =
     \<lparr>year = y, month = m, day = d, hour = 0, minute = 0, second = 0, microsecond = 0\<rparr>"

definition datetime_new :: "int \<Rightarrow> int \<Rightarrow> int \<Rightarrow> py_error + datetime" where
  \<comment> \<open>\<open>datetime(y, m, d)\<close>: the arguments are C ints, then the date is checked\<close>
  "datetime_new y m d =
     (if \<not> (c_int_range y \<and> c_int_range m \<and> c_int_range d) then Inl OverflowError
      else if valid_date y m d then Inr (midnight y m d)
      else Inl ValueError)"

definition add_one_day :: "datetime \<Rightarrow> py_error + datetime" where
  \<comment> \<open>\<open>dt + timedelta(days=1)\<close>; the last day of year 9999 has no successor\<close>
  "add_one_day dt =
     (if day dt < days_in_month (year dt) (month dt) then Inr (dt\<lparr>day := day dt + 1\<rparr>)
      else if month dt < 12 then Inr (dt\<lparr>month := month dt + 1, day := 1\<rparr>)
      else if year dt < 9999 then Inr (dt\<lparr>year := year dt + 1, month := 1, day := 1\<rparr>)
      else Inl OverflowError)"

definition days_before_year :: "int \<Rightarrow> int" where
  "days_before_year y = (y - 1) * 365 + (y - 1) div 4 - (y - 1) div 100 + (y - 1) div 400"

definition days_before_month :: "int \<Rightarrow> int \<Rightarrow> int" where
  "days_before_month y m = sum_list (map (\<lambda>k. days_in_month y (int k)) [1 ..< nat m])"

definition toordinal :: "datetime \<Rightarrow> int" where
  "toordinal dt = days_before_year (year dt) + days_before_month (year dt) (month dt) + day dt"

definition weekday :: "datetime \<Rightarrow> nat" where
  \<comment> \<open>Monday is 0\<close>
  "weekday dt = nat ((toordinal dt + 6) mod 7)"

definition day_name :: "nat \<Rightarrow> string" where
  "day_name n =
     [''Monday'', ''Tuesday'', ''Wednesday'', ''Thursday'', ''Friday'', ''Saturday'', ''Sunday''] ! n"

definition month_name :: "int \<Rightarrow> string" where
  "month_name m =
     [''January'', ''February'', ''March'', ''April'', ''May'', ''June'', ''July'', ''August'',
      ''September'', ''October'', ''November'', ''December''] ! nat (m - 1)"

definition strftime_Y :: "int \<Rightarrow> string" where
  \<comment> \<open>the directive \<open>%Y\<close> of \<open>strftime\<close>, which the C library formats: under Linux the
      year is printed without leading zeros, \<open>124\<close> and not \<open>0124\<close>\<close>
  "strftime_Y y = str_int y"

definition strftime_Ymd :: "datetime \<Rightarrow> string" where
  \<comment> \<open>\<open>dt.strftime('%Y%m%d')\<close>\<close>
  "strftime_Ymd dt = strftime_Y (year dt) @ zero_pad 2 (month dt) @ zero_pad 2 (day dt)"

definition strftime_long :: "datetime \<Rightarrow> string" where
  \<comment> \<open>\<open>dt.strftime("%A, %B %d, %Y")\<close> in the C locale\<close>
  "strftime_long dt =
     day_name (weekday dt) @ '', '' @ month_name (month dt) @ '' '' @ zero_pad 2 (day dt)
       @ '', '' @ strftime_Y (year dt)"

definition str_datetime :: "datetime \<Rightarrow> string" where
  \<comment> \<open>\<open>str(dt)\<close>: ISO format with a space between date and time; the interpreter
      formats it itself, the year on four digits\<close>
  "str_datetime dt =
     zero_pad 4 (year dt) @ ''-'' @ zero_pad 2 (month dt) @ ''-'' @ zero_pad 2 (day dt) @ '' ''
       @ zero_pad 2 (hour dt) @ '':'' @ zero_pad 2 (minute dt) @ '':'' @ zero_pad 2 (second dt)
       @ (if microsecond dt = 0 then [] else ''.'' @ zero_pad 6 (microsecond dt))"

section \<open>Regular expressions of the library\<close>

text \<open>
  Python's \<open>re\<close> is a backtracking matcher: alternatives are tried from left to right,
  a quantifier takes the longest repetition first, and the first complete match wins. A
  pattern is modelled by the list of its matches at the start of the text, in the order
  the matcher tries them, each with the text matched and the text left.
\<close>

type_synonym matcher = "string \<Rightarrow> (string \<times> string) list"

definition m_char :: "(char \<Rightarrow> bool) \<Rightarrow> matcher" where
  "m_char P s = (case s of [] \<Rightarrow> [] | c # cs \<Rightarrow> if P c then [([c], cs)] else [])"

definition m_seq :: "matcher \<Rightarrow> matcher \<Rightarrow> matcher" where
  "m_seq p q s = concat (map (\<lambda>(a, r). map (\<lambda>(b, r'). (a @ b, r')) (q r)) (p s))"

definition m_alt :: "matcher \<Rightarrow> matcher \<Rightarrow> matcher" where
  "m_alt p q s = p s @ q s"

definition m_eps :: matcher where
  "m_eps s = [([], s)]"

fun m_spaces :: matcher where
  \<comment> \<open>\<open>\s*\<close>, the longest run first\<close>
  "m_spaces [] = [([], [])]"
| "m_spaces (c # cs) =
     (if is_space c then map (\<lambda>(a, r). (c # a, r)) (m_spaces cs) @ [([], c # cs)]
      else [([], c # cs)])"

definition m_lit :: "char \<Rightarrow> matcher" where
  "m_lit x = m_char (\<lambda>c. c = x)"

definition m_digit :: matcher where
  "m_digit = m_char is_digit"

definition m_range :: "char \<Rightarrow> char \<Rightarrow> matcher" where
  "m_range lo hi = m_char (\<lambda>c. (of_char lo :: nat) \<le> of_char c \<and> (of_char c :: nat) \<le> of_char hi)"

definition m_digits_1_2 :: matcher where
  \<comment> \<open>\<open>\d{1,2}\<close>\<close>
  "m_digits_1_2 = m_seq m_digit (m_alt m_digit m_eps)"

definition m_digits_2 :: matcher where
  \<comment> \<open>\<open>\d{2}\<close>\<close>
  "m_digits_2 = m_seq m_digit m_digit"

definition time_pattern :: matcher where
  \<comment> \<open>\<open>(\d{1,2}:\d{2}-\d{1,2}:\d{2}\s*[AP]M)\<close>\<close>
  "time_pattern =
     m_seq m_digits_1_2 (m_seq (m_lit CHR '':'') (m_seq m_digits_2 (m_seq (m_lit CHR ''-'')
       (m_seq m_digits_1_2 (m_seq (m_lit CHR '':'') (m_seq m_digits_2 (m_seq m_spaces
         (m_seq (m_alt (m_lit CHR ''A'') (m_lit CHR ''P'')) (m_lit CHR ''M'')))))))))"

definition re_match :: "matcher \<Rightarrow> string \<Rightarrow> string option" where
  \<comment> \<open>the match at the start of the text, if any\<close>
  "re_match p s = (case p s of [] \<Rightarrow> None | (a, r) # _ \<Rightarrow> Some a)"

fun re_search :: "matcher \<Rightarrow> string \<Rightarrow> string option" where
  \<comment> \<open>\<open>re.search\<close>: the match at the leftmost position that has one\<close>
  "re_search p [] = re_match p []"
| "re_search p (c # cs) =
     (case re_match p (c # cs) of
        Some a \<Rightarrow> Some a
      | None \<Rightarrow> re_search p cs)"

subsection \<open>\<open>datetime.strptime(s, '%Y-%m-%d')\<close>\<close>

definition re_Y :: matcher where
  \<comment> \<open>\<open>%Y\<close> is \<open>\d\d\d\d\<close>\<close>
  "re_Y = m_seq m_digit (m_seq m_digit (m_seq m_digit m_digit))"

definition re_m :: matcher where
  \<comment> \<open>\<open>%m\<close> is \<open>1[0-2]|0[1-9]|[1-9]\<close>\<close>
  "re_m =
     m_alt (m_seq (m_lit CHR ''1'') (m_range CHR ''0'' CHR ''2''))
       (m_alt (m_seq (m_lit CHR ''0'') (m_range CHR ''1'' CHR ''9'')) (m_range CHR ''1'' CHR ''9''))"

definition re_d :: matcher where
  \<comment> \<open>\<open>%d\<close> is \<open>3[0-1]|[1-2]\d|0[1-9]|[1-9]| [1-9]\<close>\<close>
  "re_d =
     m_alt (m_seq (m_lit CHR ''3'') (m_range CHR ''0'' CHR ''1''))
       (m_alt (m_seq (m_range CHR ''1'' CHR ''2'') m_digit)
         (m_alt (m_seq (m_lit CHR ''0'') (m_range CHR ''1'' CHR ''9''))
           (m_alt (m_range CHR ''1'' CHR ''9'')
             (m_seq (m_lit CHR '' '') (m_range CHR ''1'' CHR ''9'')))))"

definition ymd_groups :: "string \<Rightarrow> (string \<times> string \<times> string \<times> string) list" where
  \<comment> \<open>the matches of \<open>%Y-%m-%d\<close> at the start: the three groups and the text left\<close>
  "ymd_groups s =
     concat (map (\<lambda>(y, r0).
       concat (map (\<lambda>(_, r1).
         concat (map (\<lambda>(m, r2).
           concat (map (\<lambda>(_, r3).
             map (\<lambda>(d, r4). (y, m, d, r4)) (re_d r3))
             (m_lit CHR ''-'' r2)))
           (re_m r1)))
         (m_lit CHR ''-'' r0)))
       (re_Y s))"

definition strptime_ymd :: "string \<Rightarrow> py_error + datetime" where
  \<comment> \<open>the first match must use the whole text, and the groups must be a date\<close>
  "strptime_ymd s =
     (case ymd_groups s of
        [] \<Rightarrow> Inl ValueError
      | (y, m, d, r) # _ \<Rightarrow>
          if r \<noteq> [] then Inl ValueError
          else (case (py_int y, py_int m, py_int d) of
                  (Inr yv, Inr mv, Inr dv) \<Rightarrow>
                    if valid_date yv mv dv then Inr (midnight yv mv dv) else Inl ValueError
                | _ \<Rightarrow> Inl ValueError))"

section \<open>The spreadsheet\<close>

text \<open>
  A cell of the frame that \<open>pandas.read_excel\<close> returns. \<open>NoneCell\<close>, \<open>NaN\<close> and
  \<open>NaT\<close> are the values \<open>pandas.isna\<close> accepts. \<open>TimestampCell\<close> is a
  \<open>pandas.Timestamp\<close>, a subclass of \<open>datetime\<close>. Floats other than NaN are left
  out: their text is floating-point formatting. A column label is a cell too, and a row
  is the list of its cells in column order; the row index of the frame is the position
  of the row.
\<close>

datatype cell =
    NoneCell
  | NaN
  | NaT
  | Text string
  | IntCell int
  | DateTimeCell datetime
  | TimestampCell datetime

record dataframe =
  columns :: "cell list"
  rows :: "cell list list"

record event =
  date :: datetime
  content :: string
  unique_id :: string

fun isna :: "cell \<Rightarrow> bool" where
  \<comment> \<open>\<open>pd.isna\<close>\<close>
  "isna NoneCell = True"
| "isna NaN = True"
| "isna NaT = True"
| "isna _ = False"

fun py_str :: "cell \<Rightarrow> string" where
  \<comment> \<open>\<open>str(value)\<close>\<close>
  "py_str NoneCell = ''None''"
| "py_str NaN = ''nan''"
| "py_str NaT = ''NaT''"
| "py_str (Text s) = s"
| "py_str (IntCell i) = str_int i"
| "py_str (DateTimeCell d) = str_datetime d"
| "py_str (TimestampCell d) = str_datetime d"

definition by_name :: "cell list \<Rightarrow> cell list \<Rightarrow> string \<Rightarrow> py_error + cell" where
  \<comment> \<open>\<open>row[name]\<close>\<close>
  "by_name cols row name =
     (case map_of (zip cols row) (Text name) of
        None \<Rightarrow> Inl KeyError
      | Some v \<Rightarrow> Inr v)"

definition second_or_empty :: "cell list \<Rightarrow> cell" where
  \<comment> \<open>\<open>row.iloc[1] if len(row) > 1 else ''\<close>\<close>
  "second_or_empty row = (if length row > 1 then row ! 1 else Text [])"

definition first_or_None :: "cell list \<Rightarrow> cell" where
  \<comment> \<open>\<open>row.iloc[0] if len(row) > 0 else None\<close>\<close>
  "first_or_None row = (if length row > 0 then row ! 0 else NoneCell)"

definition select_cells :: "cell list \<Rightarrow> cell list \<Rightarrow> py_error + (cell \<times> cell)" where
  \<comment> \<open>lines 64 to 73: the date cell and the content cell of a row\<close>
  "select_cells cols row =
     (if Text ''Date'' \<in> set cols \<and> Text ''content'' \<in> set cols then
        (case by_name cols row ''Date'' of
           Inl e \<Rightarrow> Inl e
         | Inr date_value \<Rightarrow>
             (case by_name cols row ''content'' of
                Inl e \<Rightarrow> Inl e
              | Inr c \<Rightarrow> Inr (date_value, c)))
      else if Text ''Date'' \<in> set cols then
        (case by_name cols row ''Date'' of
           Inl e \<Rightarrow> Inl e
         | Inr date_value \<Rightarrow> Inr (date_value, second_or_empty row))
      else Inr (first_or_None row, second_or_empty row))"

definition looks_like_header :: "cell list \<Rightarrow> bool" where
  \<comment> \<open>lines 58 and 59\<close>
  "looks_like_header row =
     (let first_col = first_or_None row
      in first_col = Text ''Date'' \<or> lower (py_str first_col) = ''date'')"

definition content_text :: "cell \<Rightarrow> string" where
  \<comment> \<open>line 76\<close>
  "content_text c = (if \<not> isna c then py_str c else [])"

definition parse_slash_date :: "string \<Rightarrow> py_error + datetime option" where
  \<comment> \<open>lines 113 to 118\<close>
  "parse_slash_date date_str =
     (let date_parts = split_on CHR ''/'' date_str
      in if length date_parts = 3 then
           (let d = date_parts ! 0; m = date_parts ! 1; y = date_parts ! 2;
                y' = (if length y = 2 then ''20'' @ y else y)
            in case py_int y' of
                 Inl e \<Rightarrow> Inl e
               | Inr yv \<Rightarrow>
                   (case py_int m of
                      Inl e \<Rightarrow> Inl e
                    | Inr mv \<Rightarrow>
                        (case py_int d of
                           Inl e \<Rightarrow> Inl e
                         | Inr dv \<Rightarrow>
                             (case datetime_new yv mv dv of
                                Inl e \<Rightarrow> Inl e
                              | Inr dt \<Rightarrow> Inr (Some dt)))))
         else Inr None)"

definition parse_dash_date :: "string \<Rightarrow> datetime option" where
  \<comment> \<open>lines 123 to 127; the bare \<open>except\<close> swallows the \<open>IndexError\<close> of \<open>split()[0]\<close> and
      the \<open>ValueError\<close> of \<open>strptime\<close>\<close>
  "parse_dash_date date_str =
     (case split_ws date_str of
        [] \<Rightarrow> None
      | tok # _ \<Rightarrow>
          (case strptime_ymd tok of
             Inl e \<Rightarrow> None
           | Inr dt \<Rightarrow> Some dt))"

definition coerce_date :: "cell \<Rightarrow> py_error + datetime option" where
  \<comment> \<open>lines 95 to 127, on a date cell that is not missing: \<open>Inr None\<close> is \<open>event_date\<close>
      left at \<open>None\<close>, \<open>Inl\<close> an exception that leaves the row's \<open>try\<close> block. A
      \<open>Timestamp\<close> is an instance of \<open>datetime\<close> and is taken by the first test, so
      that the second test of the source never holds\<close>
  "coerce_date date_value =
     (case date_value of
        DateTimeCell d \<Rightarrow> Inr (Some d)
      | TimestampCell d \<Rightarrow> Inr (Some d)
      | _ \<Rightarrow>
          (let date_str = py_str date_value
           in if CHR ''/'' \<in> set date_str then parse_slash_date date_str
              else if CHR ''-'' \<in> set date_str \<and> CHR ''T'' \<notin> set date_str
                then Inr (parse_dash_date date_str)
              else Inr None))"

definition make_event :: "(string \<Rightarrow> int) \<Rightarrow> datetime \<Rightarrow> string \<Rightarrow> event" where
  \<comment> \<open>lines 131 to 135; \<open>hash\<close> is the string hash of the running interpreter\<close>
  "make_event hash event_date c =
     \<lparr>date = event_date, content = c,
      unique_id = strftime_Ymd event_date @ ''_'' @ str_int (hash c)\<rparr>"

definition parse_row :: "(string \<Rightarrow> int) \<Rightarrow> cell list \<Rightarrow> nat \<Rightarrow> cell list \<Rightarrow> py_error + event option" where
  \<comment> \<open>the body of the loop, lines 55 to 145: \<open>Inr (Some e)\<close> appends \<open>e\<close>, \<open>Inr None\<close>
      goes on without an event, \<open>Inl\<close> is the exception the handler of line 141 catches\<close>
  "parse_row hash cols idx row =
     (if idx = 0 \<and> looks_like_header row then Inr None
      else
        (case select_cells cols row of
           Inl e \<Rightarrow> Inl e
         | Inr (date_value, c) \<Rightarrow>
             (let content = content_text c
              in if isna date_value then Inr None
                 else if content = [] \<or> content = ''nan'' then Inr None
                 else if lower content = ''content'' then Inr None
                 else
                   (case coerce_date date_value of
                      Inl e \<Rightarrow> Inl e
                    | Inr None \<Rightarrow> Inr None
                    | Inr (Some event_date) \<Rightarrow> Inr (Some (make_event hash event_date content))))))"

fun parse_rows :: "(string \<Rightarrow> int) \<Rightarrow> cell list \<Rightarrow> nat \<Rightarrow> cell list list \<Rightarrow> event list" where
  "parse_rows hash cols idx [] = []"
| "parse_rows hash cols idx (row # rest) =
     (case parse_row hash cols idx row of
        Inr (Some e) \<Rightarrow> e # parse_rows hash cols (Suc idx) rest
      | _ \<Rightarrow> parse_rows hash cols (Suc idx) rest)"

definition parse_event_data :: "(string \<Rightarrow> int) \<Rightarrow> dataframe \<Rightarrow> event list" where
  "parse_event_data hash df = parse_rows hash (columns df) 0 (rows df)"

section \<open>The notification\<close>

text \<open>
  The \<open>discord.Embed\<close> that \<open>format_event_message\<close> builds. Its title, colour and
  footer are the same for every event and are not part of the record; a field is its
  name, its value and its \<open>inline\<close> flag, the four names being the labels of lines 168,
  177, 186 and 199. The timestamp is the clock reading taken while formatting.
\<close>

datatype field_name = DateField | LocationField | TimeField | DetailsField

record embed =
  description :: string
  embed_fields :: "(field_name \<times> string \<times> bool) list"
  timestamp :: datetime

definition title_of_lines :: "string list \<Rightarrow> string" where
  \<comment> \<open>line 157\<close>
  "title_of_lines lines = (case lines of [] \<Rightarrow> ''Event Reminder'' | l # _ \<Rightarrow> l)"

definition event_title :: "string \<Rightarrow> string" where
  \<comment> \<open>lines 156 and 157\<close>
  "event_title c = title_of_lines (split_on newline c)"

fun collect_details :: "string list \<Rightarrow> string list \<Rightarrow> string list" where
  \<comment> \<open>the loop of lines 193 to 195, \<open>details\<close> being the second argument\<close>
  "collect_details [] details = details"
| "collect_details (line # rest) details =
     (if strip line \<noteq> [] \<and> \<not> startswith ''-'' line
      then collect_details rest (details @ [strip line])
      else collect_details rest details)"

definition event_details :: "string \<Rightarrow> string list" where
  \<comment> \<open>lines 192 to 195, then \<open>details[:5]\<close> of line 200\<close>
  "event_details c = take 5 (collect_details (tl (split_on newline c)) [])"

definition format_event_message :: "datetime \<Rightarrow> event \<Rightarrow> embed" where
  "format_event_message clock ev =
     (let c = content ev;
          title = event_title c;
          details = collect_details (tl (split_on newline c)) []
      in \<lparr>description = ''**'' @ title @ ''**'',
          embed_fields =
            [(DateField, strftime_long (date ev), False)]
            @ (if contains ''Jakarta, Indonesia'' c
               then [(LocationField, ''Jakarta, Indonesia'', True)] else [])
            @ (case re_search time_pattern c of
                 None \<Rightarrow> []
               | Some t \<Rightarrow> [(TimeField, t, True)])
            @ (if details \<noteq> []
               then [(DetailsField, join [newline] (take 5 details), False)] else []),
          timestamp = clock\<rparr>)"

definition field_value :: "field_name \<Rightarrow> embed \<Rightarrow> string option" where
  "field_value n em = map_option fst (map_of (embed_fields em) n)"

section \<open>The announcement check\<close>

text \<open>
  The periodic task is an object of the library \<open>discord.ext.tasks\<close>, version 2, which
  the program drives through \<open>start\<close>, \<open>stop\<close> and \<open>is_running\<close>. It is modelled by
  three states. \<open>start\<close> launches the loop (\<open>Running\<close>). \<open>stop\<close> does not end the
  loop: it sets the flag that makes the loop return after its next iteration
  (\<open>Stopping\<close>), and until the loop has returned \<open>is_running\<close> is still true. When
  the loop has returned the task is \<open>Idle\<close>, as it is before the first \<open>start\<close>.
\<close>

datatype task_state = Idle | Running | Stopping

text \<open>The state of the process: the two globals of the module and the task.\<close>

record bot_state =
  ANNOUNCEMENT_CHANNEL_ID :: "nat option"
  announced_events :: "string set"
  task :: task_state

definition is_running :: "bot_state \<Rightarrow> bool" where
  \<comment> \<open>\<open>check_events.is_running()\<close>: the loop was launched and has not returned\<close>
  "is_running s = (task s \<noteq> Idle)"

datatype fetched = DownloadFailed | ReadFailed | Sheet dataframe

text \<open>
  What one run of \<open>check_events\<close> meets outside the program: whether the channel is
  known to the client, what the download and \<open>read_excel\<close> give, the clock of line 234,
  the clock at the formatting of the k-th notification of the run, and whether the k-th
  \<open>channel.send\<close> of the run returns (it raises otherwise).
\<close>

record tick_env =
  channel_found :: "nat \<Rightarrow> bool"
  fetch :: fetched
  now :: datetime
  stamp :: "nat \<Rightarrow> datetime"
  send_ok :: "nat \<Rightarrow> embed \<Rightarrow> bool"

type_synonym delivery = "string \<times> embed"

fun announce ::
  "(nat \<Rightarrow> datetime) \<Rightarrow> (nat \<Rightarrow> embed \<Rightarrow> bool) \<Rightarrow> pydate \<Rightarrow> event list \<Rightarrow> nat \<Rightarrow> string set
     \<Rightarrow> string set \<times> delivery list \<times> event option" where
  \<comment> \<open>the loop of lines 238 to 252 from its k-th send on: the set afterwards, the
      notifications the sink took, each with the id of its event, and the event whose
      send raised, if one did\<close>
  "announce clk ok tomorrow [] k announced = (announced, [], None)"
| "announce clk ok tomorrow (ev # rest) k announced =
     (if date_of (date ev) = tomorrow then
        (let event_id = unique_id ev
         in if event_id \<notin> announced then
              (let em = format_event_message (clk k) ev
               in if ok k em then
                    (case announce clk ok tomorrow rest (Suc k) (insert event_id announced) of
                       (announced', sent, failed) \<Rightarrow> (announced', (event_id, em) # sent, failed))
                  else (announced, [], Some ev))
            else announce clk ok tomorrow rest k announced)
      else announce clk ok tomorrow rest k announced)"

definition check_and_announce ::
  "(nat \<Rightarrow> datetime) \<Rightarrow> (nat \<Rightarrow> embed \<Rightarrow> bool) \<Rightarrow> datetime \<Rightarrow> event list \<Rightarrow> string set
     \<Rightarrow> string set \<times> delivery list \<times> event option" where
  \<comment> \<open>lines 233 to 252 under the handler of line 254: \<open>today\<close> is the clock reading\<close>
  "check_and_announce clk ok today events announced =
     (case add_one_day today of
        Inl e \<Rightarrow> (announced, [], None)
      | Inr t \<Rightarrow> announce clk ok (date_of t) events 0 announced)"

definition check_events :: "(string \<Rightarrow> int) \<Rightarrow> tick_env \<Rightarrow> bot_state \<Rightarrow> bot_state \<times> delivery list" where
  "check_events hash env s =
     (case ANNOUNCEMENT_CHANNEL_ID s of
        None \<Rightarrow> (s, [])
      | Some cid \<Rightarrow>
          if \<not> channel_found env cid then (s, [])
          else
            (case fetch env of
               DownloadFailed \<Rightarrow> (s, [])
             | ReadFailed \<Rightarrow> (s, [])
             | Sheet df \<Rightarrow>
                 (case check_and_announce (stamp env) (send_ok env) (now env)
                         (parse_event_data hash df) (announced_events s) of
                    (announced', sent, failed) \<Rightarrow> (s\<lparr>announced_events := announced'\<rparr>, sent))))"

section \<open>The command\<close>

text \<open>
  What one invocation of \<open>!excel\<close> meets: the channel it was typed in, whether the k-th
  \<open>ctx.send\<close> of the invocation returns (the coroutine ends with the library's exception
  otherwise), and the surroundings of the check that \<open>check\<close> runs. The replies
  themselves are text for the operator and are not modelled.
\<close>

record command_env =
  ctx_channel :: nat
  reply_ok :: "nat \<Rightarrow> bool"
  tick :: tick_env

definition excel_command :: "(string \<Rightarrow> int) \<Rightarrow> command_env \<Rightarrow> string option \<Rightarrow> bot_state \<Rightarrow> bot_state" where
  "excel_command hash env action s =
     (if action = Some ''start'' then
        (let s1 = s\<lparr>ANNOUNCEMENT_CHANNEL_ID := Some (ctx_channel env)\<rparr>
         in if \<not> reply_ok env 0 then s1
            else if \<not> is_running s1 then s1\<lparr>task := Running\<rparr>
            else s1)
      else if action = Some ''stop'' then
        (if is_running s then s\<lparr>task := Stopping, ANNOUNCEMENT_CHANNEL_ID := None\<rparr>
         else s)
      else if action = Some ''status'' then s
      else if action = Some ''check'' then
        (if ANNOUNCEMENT_CHANNEL_ID s = None then s
         else if \<not> reply_ok env 0 then s
         else fst (check_events hash (tick env) s))
      else if action = Some ''debug'' then s
      else s)"

definition loop_iteration :: "(string \<Rightarrow> int) \<Rightarrow> tick_env \<Rightarrow> bot_state \<Rightarrow> bot_state \<times> delivery list" where
  \<comment> \<open>one iteration of the loop of the library: it runs \<open>check_events\<close>, and returns
      for good when \<open>stop\<close> was called since the loop was launched\<close>
  "loop_iteration hash env s =
     (case task s of
        Idle \<Rightarrow> (s, [])
      | Running \<Rightarrow> check_events hash env s
      | Stopping \<Rightarrow>
          (case check_events hash env s of
             (s', sent) \<Rightarrow> (s'\<lparr>task := Idle\<rparr>, sent)))"

definition initial_state :: bot_state where
  \<comment> \<open>lines 19 and 27, the task not started\<close>
  "initial_state = \<lparr>ANNOUNCEMENT_CHANNEL_ID = None, announced_events = {}, task = Idle\<rparr>"

inductive reachable :: "(string \<Rightarrow> int) \<Rightarrow> bot_state \<Rightarrow> bool"
  for hash :: "string \<Rightarrow> int" where
    initial: "reachable hash initial_state"
  | command: "reachable hash s \<Longrightarrow> reachable hash (excel_command hash env action s)"
  | iteration: "reachable hash s \<Longrightarrow> is_running s \<Longrightarrow> reachable hash (fst (loop_iteration hash env s))"

section \<open>Vocabulary of the properties\<close>

definition deliveries_for :: "string \<Rightarrow> string set \<times> delivery list \<times> event option \<Rightarrow> delivery list" where
  \<comment> \<open>the notifications of a run that belong to one event id\<close>
  "deliveries_for i r = filter (\<lambda>d. fst d = i) (fst (snd r))"

definition keep_line :: "string \<Rightarrow> bool" where
  \<comment> \<open>a line that is not blank and does not start with a dash\<close>
  "keep_line line = (strip line \<noteq> [] \<and> \<not> startswith ''-'' line)"

definition spec_details :: "string \<Rightarrow> string list" where
  \<comment> \<open>the words of the specification, section 4.3: the lines after the first that are not
      blank and do not start with a dash, in their order, cut to the first five\<close>
  "spec_details c = take 5 (filter keep_line (tl (split_on newline c)))"



definition spec_date_stamp :: "datetime \<Rightarrow> string" where
  \<comment> \<open>the words of the specification, section 4.1 step 7: the date as \<open>YYYYMMDD\<close>\<close>
  "spec_date_stamp dt = zero_pad 4 (year dt) @ zero_pad 2 (month dt) @ zero_pad 2 (day dt)"

definition spec_before_first_whitespace :: "string \<Rightarrow> string" where
  \<comment> \<open>the words of the specification, section 4.1 step 5d: the substring before the
      first whitespace\<close>
  "spec_before_first_whitespace s = takeWhile (\<lambda>c. \<not> is_space c) s"

definition spec_dash_date :: "string \<Rightarrow> datetime option" where
  \<comment> \<open>the words of the specification, section 4.1 step 5d: that substring parsed as
      \<open>YYYY-MM-DD\<close>, unresolved on failure\<close>
  "spec_dash_date s =
     (case strptime_ymd (spec_before_first_whitespace s) of
        Inl e \<Rightarrow> None
      | Inr dt \<Rightarrow> Some dt)"

subsection \<open>Sample inputs\<close>

definition launch_party :: string where
  "launch_party =
     ''Launch Party'' @ [newline] @ ''9:00-11:00 AM'' @ [newline] @ ''Jakarta, Indonesia''
       @ [newline] @ ''- ignore this'' @ [newline] @ ''More info''"

definition padded_sample :: string where
  "padded_sample = ''Title'' @ [newline] @ ''  padded  '' @ [newline] @ ''-no''"

definition length_hash :: "string \<Rightarrow> int" where
  "length_hash s = int (length s)"

definition named_columns :: "cell list" where
  "named_columns = [Text ''Date'', Text ''content'']"

definition sample_event :: event where
  "sample_event = make_event length_hash (midnight 2024 3 5) ''Hello''"

definition early_event :: event where
  "early_event = make_event length_hash (midnight 124 3 5) ''Hello''"

definition fixed_clock :: "nat \<Rightarrow> datetime" where
  "fixed_clock k = midnight 2024 3 4"

definition always_ok :: "nat \<Rightarrow> embed \<Rightarrow> bool" where
  "always_ok k em = True"

definition never_ok :: "nat \<Rightarrow> embed \<Rightarrow> bool" where
  "never_ok k em = False"

definition no_channel :: "nat \<Rightarrow> bool" where
  "no_channel cid = False"

definition quiet_tick :: tick_env where
  "quiet_tick =
     \<lparr>channel_found = no_channel, fetch = DownloadFailed, now = midnight 2024 3 4,
      stamp = fixed_clock, send_ok = always_ok\<rparr>"

definition reply_delivered :: "nat \<Rightarrow> bool" where
  "reply_delivered k = True"

definition good_ctx :: command_env where
  "good_ctx = \<lparr>ctx_channel = 7, reply_ok = reply_delivered, tick = quiet_tick\<rparr>"

definition started :: bot_state where
  \<comment> \<open>after \<open>start\<close> in channel 7\<close>
  "started = excel_command length_hash good_ctx (Some ''start'') initial_state"

definition restarted :: bot_state where
  \<comment> \<open>after \<open>start\<close>, \<open>stop\<close> and \<open>start\<close> again before the loop has returned\<close>
  "restarted =
     excel_command length_hash good_ctx (Some ''start'')
       (excel_command length_hash good_ctx (Some ''stop'') started)"

definition loop_ended :: bot_state where
  \<comment> \<open>then the last iteration of the loop\<close>
  "loop_ended = fst (loop_iteration length_hash quiet_tick restarted)"

section \<open>Facts about the library functions\<close>

lemma split_on_nonempty: "split_on sep s \<noteq> []"
  by (induction s) (auto split: list.splits)

lemma split_on_hd: "hd (split_on sep s) = takeWhile (\<lambda>c. c \<noteq> sep) s"
  by (induction s) (auto split: list.splits simp: split_on_nonempty)

lemma split_ws_empty: "(split_ws s = []) = (dropWhile is_space s = [])"
  by (induction s rule: split_ws.induct) (simp_all split: list.splits)

lemma split_ws_hd:
  "dropWhile is_space s \<noteq> [] \<Longrightarrow>
     hd (split_ws s) = takeWhile (\<lambda>c. \<not> is_space c) (dropWhile is_space s)"
proof (induction s rule: split_ws.induct)
  case 1
  then show ?case by simp
next
  case (2 c cs)
  show ?case
  proof (cases "is_space c")
    case True
    with 2 show ?thesis by simp
  next
    case False
    show ?thesis
    proof (cases cs)
      case Nil
      with False show ?thesis by simp
    next
      case (Cons d ds)
      show ?thesis
      proof (cases "is_space d")
        case True
        with False Cons show ?thesis by simp
      next
        case nd: False
        then have ne: "dropWhile is_space cs \<noteq> []" using Cons by simp
        then have "split_ws cs \<noteq> []" by (simp add: split_ws_empty)
        then obtain w ws where w: "split_ws cs = w # ws" by (cases "split_ws cs") auto
        from 2(3) [OF False Cons nd ne] w nd Cons
        have "w = takeWhile (\<lambda>c. \<not> is_space c) cs" by simp
        moreover have "split_ws (c # cs) = (c # w) # ws"
          using False Cons nd w by simp
        ultimately show ?thesis using False by simp
      qed
    qed
  qed
qed


lemma strptime_valid:
  "strptime_ymd s = Inr dt \<Longrightarrow> valid_date (year dt) (month dt) (day dt)"
  by (auto simp: strptime_ymd_def midnight_def split: list.splits prod.splits if_splits sum.splits)


lemma str_nat_nonempty: "str_nat n \<noteq> []"
  by (subst str_nat.simps) simp

lemma str_nat_step:
  "\<not> n < 10 \<Longrightarrow> str_nat n = str_nat (n div 10) @ [digit_char (n mod 10)]"
  by (subst str_nat.simps) simp

lemma str_nat_four: "1000 \<le> n \<Longrightarrow> 4 \<le> length (str_nat n)"
proof -
  assume n: "1000 \<le> n"
  then have g: "\<not> n < 10" "\<not> n div 10 < 10" "\<not> n div 10 div 10 < 10" by simp_all
  have "1 \<le> length (str_nat (n div 10 div 10 div 10))"
    using str_nat_nonempty [of "n div 10 div 10 div 10"]
    by (cases "str_nat (n div 10 div 10 div 10)") simp_all
  then show ?thesis
    unfolding str_nat_step [OF g(1)] str_nat_step [OF g(2)] str_nat_step [OF g(3)] by simp
qed

lemma stamp_from_1000:
  "1000 \<le> year dt \<Longrightarrow> strftime_Ymd dt = spec_date_stamp dt"
proof -
  assume y: "1000 \<le> year dt"
  then have "1000 \<le> nat (year dt)" by simp
  from str_nat_four [OF this] have "zero_pad 4 (year dt) = str_nat (nat (year dt))"
    by (simp add: zero_pad_def Let_def)
  with y show ?thesis
    by (simp add: strftime_Ymd_def spec_date_stamp_def strftime_Y_def str_int_def)
qed

lemma tomorrow_of_sample: "add_one_day (midnight 2024 3 4) = Inr (midnight 2024 3 5)"
  by (simp add: add_one_day_def midnight_def days_in_month_def)

section \<open>Facts about the parser\<close>

lemma coerce_text:
  "coerce_date (Text s) =
     (if CHR ''/'' \<in> set s then parse_slash_date s
      else if CHR ''-'' \<in> set s \<and> CHR ''T'' \<notin> set s then Inr (parse_dash_date s)
      else Inr None)"
  by (simp add: coerce_date_def)

lemma parse_rows_append:
  "parse_rows hash cols idx (xs @ ys)
     = parse_rows hash cols idx xs @ parse_rows hash cols (idx + length xs) ys"
  by (induction xs arbitrary: idx) (auto split: sum.splits option.splits)

lemma parse_rows_origin:
  "e \<in> set (parse_rows hash cols idx rs) \<Longrightarrow> \<exists>i row. parse_row hash cols i row = Inr (Some e)"
proof (induction rs arbitrary: idx)
  case Nil
  then show ?case by simp
next
  case (Cons r rs)
  then show ?case
    by (cases "parse_row hash cols idx r") (auto split: option.splits)
qed

lemma parse_row_id:
  "parse_row hash cols idx row = Inr (Some e) \<Longrightarrow>
     unique_id e = strftime_Ymd (date e) @ ''_'' @ str_int (hash (content e))"
  by (auto simp: parse_row_def make_event_def Let_def
      split: if_splits sum.splits option.splits prod.splits)

lemma skipped_row:
  assumes "select_cells cols row = Inr (date_value, c)"
    and "isna date_value \<or> content_text c = [] \<or> content_text c = ''nan''
         \<or> lower (content_text c) = ''content''"
  shows "parse_row hash cols idx row = Inr None"
  using assms by (auto simp: parse_row_def Let_def)

lemma without_row:
  assumes "parse_row hash cols (length before) row = Inr None"
  shows "parse_event_data hash \<lparr>columns = cols, rows = before @ row # after\<rparr>
           = parse_rows hash cols 0 before @ parse_rows hash cols (Suc (length before)) after"
  using assms by (simp add: parse_event_data_def parse_rows_append)

lemma select_cells_total:
  assumes "length row = length cols"
  shows "\<exists>date_value c. select_cells cols row = Inr (date_value, c)"
proof -
  have n: "\<exists>v. by_name cols row name = Inr v" if "Text name \<in> set cols" for name
  proof -
    have "map fst (zip cols row) = cols" using assms by (simp add: map_fst_zip)
    then have "fst ` set (zip cols row) = set cols" by (metis set_map)
    with that have "Text name \<in> fst ` set (zip cols row)" by simp
    then have "map_of (zip cols row) (Text name) \<noteq> None"
      by (simp add: map_of_eq_None_iff)
    then show ?thesis by (auto simp: by_name_def)
  qed
  show ?thesis
  proof (cases "Text ''Date'' \<in> set cols")
    case False
    then show ?thesis by (simp add: select_cells_def)
  next
    case d: True
    from n [OF d] obtain v where v: "by_name cols row ''Date'' = Inr v" by auto
    show ?thesis
    proof (cases "Text ''content'' \<in> set cols")
      case False
      with d v show ?thesis by (simp add: select_cells_def)
    next
      case True
      from n [OF True] obtain w where "by_name cols row ''content'' = Inr w" by auto
      with d v True show ?thesis by (simp add: select_cells_def)
    qed
  qed
qed

section \<open>Facts about the formatter\<close>

lemma collect_details_eq:
  "collect_details ls acc = acc @ map strip (filter keep_line ls)"
  by (induction ls arbitrary: acc) (auto simp: keep_line_def)

lemma field_time:
  "field_value TimeField (format_event_message clock ev) = re_search time_pattern (content ev)"
  by (auto simp: field_value_def format_event_message_def Let_def split: option.splits)

lemma field_location:
  "field_value LocationField (format_event_message clock ev)
     = (if contains ''Jakarta, Indonesia'' (content ev) then Some ''Jakarta, Indonesia'' else None)"
  by (auto simp: field_value_def format_event_message_def Let_def split: option.splits)

lemma field_details:
  "field_value DetailsField (format_event_message clock ev)
     = (if event_details (content ev) = [] then None
        else Some (join [newline] (event_details (content ev))))"
  by (auto simp: field_value_def format_event_message_def event_details_def Let_def
      split: option.splits)

section \<open>Facts about the announcement loop\<close>

lemma announce_sent:
  "announce clk ok t evs k A = (A', sent, f) \<Longrightarrow>
     A' = A \<union> fst ` set sent \<and> distinct (map fst sent) \<and> fst ` set sent \<inter> A = {}"
proof (induction evs arbitrary: k A A' sent f)
  case Nil
  then show ?case by simp
next
  case (Cons ev rest)
  show ?case
  proof (cases "date_of (date ev) = t \<and> unique_id ev \<notin> A")
    case False
    then have "announce clk ok t rest k A = (A', sent, f)"
      using Cons.prems by (auto simp: Let_def split: if_splits)
    then show ?thesis by (rule Cons.IH)
  next
    case True
    show ?thesis
    proof (cases "ok k (format_event_message (clk k) ev)")
      case False
      then show ?thesis using True Cons.prems by (simp add: Let_def)
    next
      case ok: True
      obtain A1 sent1 f1 where
        r: "announce clk ok t rest (Suc k) (insert (unique_id ev) A) = (A1, sent1, f1)"
        by (cases "announce clk ok t rest (Suc k) (insert (unique_id ev) A)") auto
      from Cons.IH [OF r] have ih:
        "A1 = insert (unique_id ev) A \<union> fst ` set sent1" "distinct (map fst sent1)"
        "fst ` set sent1 \<inter> insert (unique_id ev) A = {}" by auto
      from True ok r Cons.prems have
        e: "A' = A1" "sent = (unique_id ev, format_event_message (clk k) ev) # sent1"
        by (auto simp: Let_def)
      show ?thesis using ih True unfolding e by auto
    qed
  qed
qed

lemma announce_completed:
  "announce clk ok t evs k A = (A', sent, None) \<Longrightarrow> e \<in> set evs \<Longrightarrow>
     date_of (date e) = t \<Longrightarrow> unique_id e \<in> A'"
proof (induction evs arbitrary: k A A' sent)
  case Nil
  then show ?case by simp
next
  case (Cons ev rest)
  show ?case
  proof (cases "date_of (date ev) = t \<and> unique_id ev \<notin> A")
    case False
    then have r: "announce clk ok t rest k A = (A', sent, None)"
      using Cons.prems(1) by (auto simp: Let_def split: if_splits)
    from announce_sent [OF r] have sub: "A \<subseteq> A'" by auto
    show ?thesis
    proof (cases "e = ev")
      case True
      with False Cons.prems(3) sub show ?thesis by auto
    next
      case False
      with Cons.prems(2) have "e \<in> set rest" by simp
      from Cons.IH [OF r this Cons.prems(3)] show ?thesis .
    qed
  next
    case True
    have okk: "ok k (format_event_message (clk k) ev)"
      using True Cons.prems(1) by (auto simp: Let_def split: if_splits)
    obtain A1 sent1 f1 where
      r: "announce clk ok t rest (Suc k) (insert (unique_id ev) A) = (A1, sent1, f1)"
      by (cases "announce clk ok t rest (Suc k) (insert (unique_id ev) A)") auto
    from True okk r Cons.prems(1) have e: "A' = A1" "f1 = None"
      by (auto simp: Let_def)
    from announce_sent [OF r] have sub: "unique_id ev \<in> A1" by auto
    show ?thesis
    proof (cases "e = ev")
      case True
      with sub e show ?thesis by simp
    next
      case False
      with Cons.prems(2) have "e \<in> set rest" by simp
      from Cons.IH [OF r [unfolded e(2)] this Cons.prems(3)] e show ?thesis by simp
    qed
  qed
qed

lemma announce_all_ok:
  "(\<And>j em. ok j em) \<Longrightarrow> snd (snd (announce clk ok t evs k A)) = None"
proof (induction evs arbitrary: k A)
  case Nil
  show ?case by simp
next
  case (Cons ev rest)
  have okk: "ok k (format_event_message (clk k) ev)" by (rule Cons.prems)
  have ih: "snd (snd (announce clk ok t rest j B)) = None" for j B
    by (rule Cons.IH) (rule Cons.prems)
  show ?case
  proof (cases "date_of (date ev) = t \<and> unique_id ev \<notin> A")
    case False
    with ih [of k A] show ?thesis by (auto simp: Let_def)
  next
    case True
    obtain A1 sent1 f1 where
      r: "announce clk ok t rest (Suc k) (insert (unique_id ev) A) = (A1, sent1, f1)"
      by (cases "announce clk ok t rest (Suc k) (insert (unique_id ev) A)") auto
    with ih [of "Suc k" "insert (unique_id ev) A"] have "f1 = None" by simp
    with True okk r show ?thesis by (simp add: Let_def)
  qed
qed

lemma announce_failed:
  "announce clk ok t evs k A = (A', sent, Some e) \<Longrightarrow>
     e \<in> set evs \<and> date_of (date e) = t \<and> unique_id e \<notin> A' \<and>
     \<not> ok (k + length sent) (format_event_message (clk (k + length sent)) e)"
proof (induction evs arbitrary: k A A' sent)
  case Nil
  then show ?case by simp
next
  case (Cons ev rest)
  show ?case
  proof (cases "date_of (date ev) = t \<and> unique_id ev \<notin> A")
    case False
    then have r: "announce clk ok t rest k A = (A', sent, Some e)"
      using Cons.prems by (auto simp: Let_def split: if_splits)
    from Cons.IH [OF r] show ?thesis by auto
  next
    case True
    show ?thesis
    proof (cases "ok k (format_event_message (clk k) ev)")
      case False
      then show ?thesis using True Cons.prems by (auto simp: Let_def)
    next
      case ok: True
      obtain A1 sent1 f1 where
        r: "announce clk ok t rest (Suc k) (insert (unique_id ev) A) = (A1, sent1, f1)"
        by (cases "announce clk ok t rest (Suc k) (insert (unique_id ev) A)") auto
      from True ok r Cons.prems have
        e: "A' = A1" "sent = (unique_id ev, format_event_message (clk k) ev) # sent1" "f1 = Some e"
        by (auto simp: Let_def)
      from Cons.IH [OF r [unfolded e(3)]] show ?thesis unfolding e by auto
    qed
  qed
qed

lemma count_one:
  "distinct (map fst sent) \<Longrightarrow> i \<in> fst ` set sent \<Longrightarrow> length (filter (\<lambda>d. fst d = i) sent) = 1"
  by (induction sent) (auto simp: filter_empty_conv image_iff)

lemma announce_known:
  "i \<in> A \<Longrightarrow> deliveries_for i (announce clk ok t evs k A) = []"
proof -
  obtain A' sent f where r: "announce clk ok t evs k A = (A', sent, f)"
    by (cases "announce clk ok t evs k A") auto
  assume "i \<in> A"
  with announce_sent [OF r] have "i \<notin> fst ` set sent" by auto
  then show ?thesis unfolding deliveries_for_def r
    by (auto simp: filter_empty_conv)
qed

lemma announce_once:
  assumes fin: "snd (snd (announce clk ok t evs k A)) = None"
    and ev: "ev \<in> set evs" "date_of (date ev) = t"
    and new: "unique_id ev \<notin> A"
  shows "length (deliveries_for (unique_id ev) (announce clk ok t evs k A)) = 1
         \<and> unique_id ev \<in> fst (announce clk ok t evs k A)"
proof -
  obtain A' sent f where r: "announce clk ok t evs k A = (A', sent, f)"
    by (cases "announce clk ok t evs k A") auto
  with fin have r': "announce clk ok t evs k A = (A', sent, None)" by simp
  from announce_completed [OF r' ev] have inA: "unique_id ev \<in> A'" .
  from announce_sent [OF r] have
    s: "A' = A \<union> fst ` set sent" "distinct (map fst sent)" by auto
  from inA new s(1) have "unique_id ev \<in> fst ` set sent" by auto
  from count_one [OF s(2) this] show ?thesis
    unfolding deliveries_for_def r using inA by simp
qed

section \<open>Facts about the command\<close>

lemma check_events_keeps:
  "ANNOUNCEMENT_CHANNEL_ID (fst (check_events hash env s)) = ANNOUNCEMENT_CHANNEL_ID s
   \<and> task (fst (check_events hash env s)) = task s"
  by (simp add: check_events_def split: option.splits fetched.splits prod.splits)

lemma started_state:
  "started = \<lparr>ANNOUNCEMENT_CHANNEL_ID = Some 7, announced_events = {}, task = Running\<rparr>"
  by (simp add: started_def excel_command_def good_ctx_def reply_delivered_def
      initial_state_def is_running_def)

lemma restarted_state:
  "restarted = \<lparr>ANNOUNCEMENT_CHANNEL_ID = Some 7, announced_events = {}, task = Stopping\<rparr>"
  by (simp add: restarted_def started_state excel_command_def good_ctx_def reply_delivered_def
      is_running_def)

lemma loop_ended_state:
  "loop_ended = \<lparr>ANNOUNCEMENT_CHANNEL_ID = Some 7, announced_events = {}, task = Idle\<rparr>"
  by (simp add: loop_ended_def restarted_state loop_iteration_def check_events_def quiet_tick_def
      no_channel_def)

lemma reachable_started: "reachable length_hash started"
  unfolding started_def by (rule reachable.command) (rule reachable.initial)

lemma reachable_restarted: "reachable length_hash restarted"
  unfolding restarted_def
  by (rule reachable.command) (rule reachable.command, rule reachable_started)

lemma reachable_loop_ended: "reachable length_hash loop_ended"
  unfolding loop_ended_def
  by (rule reachable.iteration [OF reachable_restarted])
    (simp add: restarted_state is_running_def)

section \<open>The claims\<close>

text \<open>
  C1. In a run of the check in which no send raises, an event of the list dated the day
  after \<open>today\<close> whose id is not yet in the announced set gets exactly one
  notification, and its id is in the set afterwards; whatever a further run with the
  same \<open>today\<close> is given, it delivers nothing for that id.
\<close>

theorem check_announces_once:
  assumes "add_one_day today = Inr t"
    and "ev \<in> set events" and "date_of (date ev) = date_of t"
    and "unique_id ev \<notin> announced"
    and "snd (snd (check_and_announce clk ok today events announced)) = None"
  shows "length (deliveries_for (unique_id ev)
           (check_and_announce clk ok today events announced)) = 1
     \<and> unique_id ev \<in> fst (check_and_announce clk ok today events announced)
     \<and> deliveries_for (unique_id ev)
         (check_and_announce clk2 ok2 today events2
            (fst (check_and_announce clk ok today events announced))) = []"
proof -
  let ?r = "check_and_announce clk ok today events announced"
  have r: "?r = announce clk ok (date_of t) events 0 announced"
    using assms(1) by (simp add: check_and_announce_def)
  from announce_once [where clk = clk and k = 0, OF assms(5) [unfolded r] assms(2,3,4)]
  have one: "length (deliveries_for (unique_id ev) ?r) = 1" and inA: "unique_id ev \<in> fst ?r"
    unfolding r by auto
  have "check_and_announce clk2 ok2 today events2 (fst ?r)
          = announce clk2 ok2 (date_of t) events2 0 (fst ?r)"
    using assms(1) by (simp add: check_and_announce_def)
  with announce_known [OF inA] have "deliveries_for (unique_id ev)
         (check_and_announce clk2 ok2 today events2 (fst ?r)) = []" by simp
  with one inA show ?thesis by simp
qed

theorem check_announces_once_witness:
  "length (deliveries_for (unique_id sample_event)
     (check_and_announce fixed_clock always_ok (midnight 2024 3 4) [sample_event] {})) = 1
   \<and> unique_id sample_event
       \<in> fst (check_and_announce fixed_clock always_ok (midnight 2024 3 4) [sample_event] {})
   \<and> deliveries_for (unique_id sample_event)
       (check_and_announce fixed_clock always_ok (midnight 2024 3 4) [sample_event]
          (fst (check_and_announce fixed_clock always_ok (midnight 2024 3 4) [sample_event] {})))
       = []"
proof -
  have d: "date_of (date sample_event) = date_of (midnight 2024 3 5)"
    by (simp add: sample_event_def make_event_def)
  have ok: "always_ok j em" for j em
    by (simp add: always_ok_def)
  have c: "snd (snd (check_and_announce fixed_clock always_ok (midnight 2024 3 4)
              [sample_event] {})) = None"
    unfolding check_and_announce_def tomorrow_of_sample sum.case
    by (rule announce_all_ok) (rule ok)
  have m: "sample_event \<in> set [sample_event]" by simp
  have n: "unique_id sample_event \<notin> {}" by simp
  from check_announces_once [OF tomorrow_of_sample m d n c] show ?thesis .
qed

text \<open>
  C2. When the run ends with the send for an event having raised, the announced set
  afterwards does not hold that event's id; a later run for the same day after, in
  which the event is still listed and no send raises, delivers its notification once
  and puts the id in the set.
\<close>

theorem failed_send_is_retried:
  assumes "check_and_announce clk ok today events announced = (announced', sent, Some ev)"
    and "add_one_day today = Inr t" and "add_one_day today2 = Inr t2"
    and "date_of t2 = date_of t"
    and "ev \<in> set events2"
    and "snd (snd (check_and_announce clk2 ok2 today2 events2 announced')) = None"
  shows "unique_id ev \<notin> announced'
     \<and> \<not> ok (length sent) (format_event_message (clk (length sent)) ev)
     \<and> length (deliveries_for (unique_id ev)
          (check_and_announce clk2 ok2 today2 events2 announced')) = 1
     \<and> unique_id ev \<in> fst (check_and_announce clk2 ok2 today2 events2 announced')"
proof -
  have "announce clk ok (date_of t) events 0 announced = (announced', sent, Some ev)"
    using assms(1,2) by (simp add: check_and_announce_def)
  from announce_failed [OF this] have
    f: "date_of (date ev) = date_of t" "unique_id ev \<notin> announced'"
       "\<not> ok (length sent) (format_event_message (clk (length sent)) ev)" by auto
  have r2: "check_and_announce clk2 ok2 today2 events2 announced'
          = announce clk2 ok2 (date_of t) events2 0 announced'"
    using assms(3,4) by (simp add: check_and_announce_def)
  from announce_once [where clk = clk2 and k = 0, OF assms(6) [unfolded r2] assms(5) f(1) f(2)]
    f(2,3)
  show ?thesis unfolding r2 by simp
qed

theorem failed_send_is_retried_witness:
  "unique_id sample_event \<notin> {}
   \<and> \<not> never_ok (length ([] :: delivery list))
         (format_event_message (fixed_clock (length ([] :: delivery list))) sample_event)
   \<and> length (deliveries_for (unique_id sample_event)
        (check_and_announce fixed_clock always_ok ((midnight 2024 3 4)\<lparr>hour := 9\<rparr>)
           [sample_event] {})) = 1
   \<and> unique_id sample_event
       \<in> fst (check_and_announce fixed_clock always_ok ((midnight 2024 3 4)\<lparr>hour := 9\<rparr>)
                [sample_event] {})"
proof -
  have a: "check_and_announce fixed_clock never_ok (midnight 2024 3 4) [sample_event] {}
             = ({}, [], Some sample_event)"
    by (simp add: check_and_announce_def tomorrow_of_sample never_ok_def sample_event_def
        make_event_def date_of_def Let_def)
  have b: "add_one_day ((midnight 2024 3 4)\<lparr>hour := 9\<rparr>) = Inr ((midnight 2024 3 5)\<lparr>hour := 9\<rparr>)"
    by (simp add: add_one_day_def midnight_def days_in_month_def)
  have c: "date_of ((midnight 2024 3 5)\<lparr>hour := 9\<rparr>) = date_of (midnight 2024 3 5)"
    by (simp add: date_of_def midnight_def)
  have ok: "always_ok j em" for j em
    by (simp add: always_ok_def)
  have d: "snd (snd (check_and_announce fixed_clock always_ok ((midnight 2024 3 4)\<lparr>hour := 9\<rparr>)
              [sample_event] {})) = None"
    unfolding check_and_announce_def b sum.case
    by (rule announce_all_ok) (rule ok)
  have m: "sample_event \<in> set [sample_event]" by simp
  from failed_send_is_retried [OF a tomorrow_of_sample b c m d] show ?thesis .
qed




text \<open>
  C4. A date cell that is text with a dash, without \<open>T\<close> and without a slash: the
  leading whitespace is passed over, the text up to the next whitespace is parsed with
  the format \<open>%Y-%m-%d\<close>, and a failure leaves the date unresolved; the row's handler
  is never reached, and a date that results is a calendar date. The text \<open>2024-03-05 10:00:00\<close> gives 5 March 2024; so does
  \<open>2024-3-5\<close>, the format taking a month or day of one digit; \<open>2024-02-30\<close> is left
  unresolved.
\<close>

theorem dash_date:
  assumes "CHR ''-'' \<in> set s" and "CHR ''T'' \<notin> set s" and "CHR ''/'' \<notin> set s"
  shows "coerce_date (Text s)
       = Inr (case strptime_ymd (takeWhile (\<lambda>c. \<not> is_space c) (dropWhile is_space s)) of
                Inl e \<Rightarrow> None
              | Inr dt \<Rightarrow> Some dt)
     \<and> (coerce_date (Text s) = Inr (Some dt) \<longrightarrow> valid_date (year dt) (month dt) (day dt))
     \<and> coerce_date (Text ''2024-03-05 10:00:00'') = Inr (Some (midnight 2024 3 5))
     \<and> coerce_date (Text ''2024-3-5'') = Inr (Some (midnight 2024 3 5))
     \<and> coerce_date (Text ''2024-02-30'') = Inr None"
proof -
  have "\<not> is_space CHR ''-''" by (simp add: is_space_def)
  with assms(1) have ne: "dropWhile is_space s \<noteq> []"
    by (auto simp: dropWhile_eq_Nil_conv)
  then have "split_ws s \<noteq> []" by (simp add: split_ws_empty)
  then obtain tok rest where t: "split_ws s = tok # rest" by (cases "split_ws s") auto
  with split_ws_hd [OF ne] have
    tok: "tok = takeWhile (\<lambda>c. \<not> is_space c) (dropWhile is_space s)" by simp
  have 1: "coerce_date (Text s)
       = Inr (case strptime_ymd (takeWhile (\<lambda>c. \<not> is_space c) (dropWhile is_space s)) of
                Inl e \<Rightarrow> None
              | Inr dt \<Rightarrow> Some dt)"
    using assms t tok by (simp add: coerce_text parse_dash_date_def)
  have 2: "coerce_date (Text ''2024-03-05 10:00:00'') = Inr (Some (midnight 2024 3 5))"
    by code_simp
  have 3: "coerce_date (Text ''2024-3-5'') = Inr (Some (midnight 2024 3 5))"
    by code_simp
  have 4: "coerce_date (Text ''2024-02-30'') = Inr None"
    by code_simp
  have 5: "coerce_date (Text s) = Inr (Some dt) \<longrightarrow> valid_date (year dt) (month dt) (day dt)"
    unfolding 1 by (auto split: sum.splits dest: strptime_valid)
  show ?thesis by (intro conjI 1 5 2 3 4)
qed

theorem dash_date_witness:
  "CHR ''-'' \<in> set '' 2024-03-05 10:00''
   \<and> CHR ''T'' \<notin> set '' 2024-03-05 10:00'' \<and> CHR ''/'' \<notin> set '' 2024-03-05 10:00''
   \<and> takeWhile (\<lambda>c. \<not> is_space c) (dropWhile is_space '' 2024-03-05 10:00'') = ''2024-03-05''
   \<and> coerce_date (Text '' 2024-03-05 10:00'') = Inr (Some (midnight 2024 3 5))"
proof -
  have a: "CHR ''-'' \<in> set '' 2024-03-05 10:00''" by simp
  have b: "CHR ''T'' \<notin> set '' 2024-03-05 10:00''" by simp
  have c: "CHR ''/'' \<notin> set '' 2024-03-05 10:00''" by simp
  have t: "takeWhile (\<lambda>c. \<not> is_space c) (dropWhile is_space '' 2024-03-05 10:00'')
             = ''2024-03-05''"
    by (simp add: is_space_def)
  have p: "strptime_ymd ''2024-03-05'' = Inr (midnight 2024 3 5)" by code_simp
  from dash_date [OF a b c, THEN conjunct1] a b c t p show ?thesis by simp
qed

text \<open>
  C4 as the specification words it fails on a text that starts with whitespace: the
  substring before the first whitespace of \<open> 2024-03-05\<close> is empty and parses to no
  date, yet the parser resolves the cell to 5 March 2024.
\<close>

theorem dash_date_counterexample:
  "CHR ''-'' \<in> set '' 2024-03-05'' \<and> CHR ''T'' \<notin> set '' 2024-03-05''
   \<and> CHR ''/'' \<notin> set '' 2024-03-05''
   \<and> spec_before_first_whitespace '' 2024-03-05'' = []
   \<and> spec_dash_date '' 2024-03-05'' = None
   \<and> coerce_date (Text '' 2024-03-05'') = Inr (Some (midnight 2024 3 5))"
proof -
  have 1: "spec_before_first_whitespace '' 2024-03-05'' = []"
    by (simp add: spec_before_first_whitespace_def is_space_def)
  have 2: "spec_dash_date '' 2024-03-05'' = None"
    by code_simp
  have 3: "coerce_date (Text '' 2024-03-05'') = Inr (Some (midnight 2024 3 5))"
    by code_simp
  from 1 2 3 show ?thesis by simp
qed

text \<open>
  C5. A row whose date cell is missing, or whose content cell gives the empty string,
  or whose content is \<open>content\<close> in any letter case, is passed over by a
  \<open>continue\<close>, not by the handler, whatever its date cell holds, and the events of the
  sheet are those of the rows before it followed by those of the rows after it.
\<close>

theorem rejected_rows_are_skipped:
  assumes "select_cells cols row = Inr (date_value, c)"
    and "isna date_value \<or> content_text c = [] \<or> lower (content_text c) = ''content''"
  shows "parse_row hash cols idx row = Inr None
     \<and> parse_event_data hash \<lparr>columns = cols, rows = before @ row # after\<rparr>
         = parse_rows hash cols 0 before @ parse_rows hash cols (Suc (length before)) after"
proof -
  have "parse_row hash cols i row = Inr None" for i
    using assms by (auto intro: skipped_row)
  from this [of idx] without_row [OF this [of "length before"]] show ?thesis by simp
qed

theorem rejected_rows_are_skipped_witness:
  "select_cells named_columns [Text ''05/03/24'', NaN] = Inr (Text ''05/03/24'', NaN)
   \<and> content_text NaN = []
   \<and> parse_row length_hash named_columns 1 [Text ''05/03/24'', NaN] = Inr None
   \<and> parse_event_data length_hash
        \<lparr>columns = named_columns,
         rows = [[Text ''04/03/24'', Text ''Hi'']] @ [Text ''05/03/24'', NaN] # []\<rparr>
       = parse_rows length_hash named_columns 0 [[Text ''04/03/24'', Text ''Hi'']]
           @ parse_rows length_hash named_columns (Suc (length [[Text ''04/03/24'', Text ''Hi'']])) []"
proof -
  have a: "select_cells named_columns [Text ''05/03/24'', NaN] = Inr (Text ''05/03/24'', NaN)"
    by (simp add: select_cells_def named_columns_def by_name_def)
  have b: "content_text NaN = []" by (simp add: content_text_def)
  then have c: "isna (Text ''05/03/24'') \<or> content_text NaN = []
                  \<or> lower (content_text NaN) = ''content''" by simp
  from rejected_rows_are_skipped [OF a c, of length_hash 1 "[[Text ''04/03/24'', Text ''Hi'']]" "[]"]
    a b
  show ?thesis by simp
qed

text \<open>
  C6. The id of the event of a parsed row is the date of the event as
  \<open>strftime('%Y%m%d')\<close> prints it, the year without leading zeros and month and day on
  two digits each, then an underscore and the decimal text of the hash of its content,
  the hash being that of the running interpreter. For a year from 1000 on the date part
  is \<open>YYYYMMDD\<close>. Hence two events, of one parse or of two, with the same date and the
  same content have the same id.
\<close>

theorem event_id_from_date_and_content:
  "(parse_row hash cols idx row = Inr (Some e)
      \<longrightarrow> unique_id e = strftime_Ymd (date e) @ ''_'' @ str_int (hash (content e)))
   \<and> (e \<in> set (parse_event_data hash df)
      \<longrightarrow> unique_id e = strftime_Ymd (date e) @ ''_'' @ str_int (hash (content e)))
   \<and> (e \<in> set (parse_event_data hash df) \<and> 1000 \<le> year (date e)
      \<longrightarrow> unique_id e = spec_date_stamp (date e) @ ''_'' @ str_int (hash (content e)))
   \<and> (e1 \<in> set (parse_event_data hash df) \<and> e2 \<in> set (parse_event_data hash df')
        \<and> date e1 = date e2 \<and> content e1 = content e2
      \<longrightarrow> unique_id e1 = unique_id e2)
   \<and> strftime_Ymd (midnight 2024 3 5) = ''20240305''
   \<and> strftime_Ymd (midnight 124 3 5) = ''1240305''"
proof -
  have ev: "unique_id x = strftime_Ymd (date x) @ ''_'' @ str_int (hash (content x))"
    if "x \<in> set (parse_event_data hash d)" for x d
  proof -
    from that have "x \<in> set (parse_rows hash (columns d) 0 (rows d))"
      by (simp add: parse_event_data_def)
    from parse_rows_origin [OF this] obtain i r where
      "parse_row hash (columns d) i r = Inr (Some x)" by blast
    then show ?thesis by (rule parse_row_id)
  qed
  have p1: "parse_row hash cols idx row = Inr (Some e)
      \<longrightarrow> unique_id e = strftime_Ymd (date e) @ ''_'' @ str_int (hash (content e))"
    by (simp add: parse_row_id)
  have p2: "e \<in> set (parse_event_data hash df)
      \<longrightarrow> unique_id e = strftime_Ymd (date e) @ ''_'' @ str_int (hash (content e))"
    by (simp add: ev)
  have p3: "e \<in> set (parse_event_data hash df) \<and> 1000 \<le> year (date e)
      \<longrightarrow> unique_id e = spec_date_stamp (date e) @ ''_'' @ str_int (hash (content e))"
    using ev [of e df] stamp_from_1000 [of "date e"] by simp
  have p4: "e1 \<in> set (parse_event_data hash df) \<and> e2 \<in> set (parse_event_data hash df')
        \<and> date e1 = date e2 \<and> content e1 = content e2
      \<longrightarrow> unique_id e1 = unique_id e2"
    using ev [of e1 df] ev [of e2 df'] by simp
  have p5: "strftime_Ymd (midnight 2024 3 5) = ''20240305''" by code_simp
  have p6: "strftime_Ymd (midnight 124 3 5) = ''1240305''" by code_simp
  show ?thesis by (intro conjI p1 p2 p3 p4 p5 p6)
qed

theorem event_id_from_date_and_content_witness:
  "parse_row length_hash named_columns 1 [Text ''05/03/24'', Text ''Hello'']
     = Inr (Some sample_event)
   \<and> unique_id sample_event
       = strftime_Ymd (date sample_event) @ ''_'' @ str_int (length_hash (content sample_event))
   \<and> unique_id sample_event = ''20240305_5''"
proof -
  have a: "parse_row length_hash named_columns 1 [Text ''05/03/24'', Text ''Hello'']
             = Inr (Some sample_event)"
    by code_simp
  have b: "unique_id sample_event = ''20240305_5''" by code_simp
  have c: "unique_id sample_event
       = strftime_Ymd (date sample_event) @ ''_'' @ str_int (length_hash (content sample_event))"
    using event_id_from_date_and_content
      [of length_hash named_columns 1 "[Text ''05/03/24'', Text ''Hello'']" sample_event] a
    by blast
  show ?thesis by (intro conjI a c b)
qed

text \<open>
  C6 as the specification words it, the date part being \<open>YYYYMMDD\<close>, fails on a row
  dated before the year 1000: the row \<open>5/3/124\<close> with the content \<open>Hello\<close> is parsed,
  and its id starts with \<open>1240305\<close>, seven digits, where \<open>YYYYMMDD\<close> is \<open>01240305\<close>.
\<close>

theorem event_id_from_date_and_content_counterexample:
  "parse_row length_hash named_columns 1 [Text ''5/3/124'', Text ''Hello'']
     = Inr (Some early_event)
   \<and> date early_event = midnight 124 3 5
   \<and> unique_id early_event = ''1240305_5''
   \<and> spec_date_stamp (date early_event) @ ''_'' @ str_int (length_hash (content early_event))
       = ''01240305_5''"
proof -
  have a: "parse_row length_hash named_columns 1 [Text ''5/3/124'', Text ''Hello'']
             = Inr (Some early_event)"
    by code_simp
  have b: "date early_event = midnight 124 3 5"
    by (simp add: early_event_def make_event_def)
  have c: "unique_id early_event = ''1240305_5''" by code_simp
  have d: "spec_date_stamp (date early_event) @ ''_'' @ str_int (length_hash (content early_event))
       = ''01240305_5''"
    by code_simp
  show ?thesis by (intro conjI a b c d)
qed

text \<open>
  C7. The notification of an event whose content is the five lines \<open>Launch Party\<close>,
  \<open>9:00-11:00 AM\<close>, \<open>Jakarta, Indonesia\<close>, \<open>- ignore this\<close>, \<open>More info\<close> has the title
  \<open>Launch Party\<close>, the time field \<open>9:00-11:00 AM\<close>, a location field, and details
  that hold \<open>More info\<close> and not the line with the dash. For every content the details
  are the lines after the first that are not blank and do not start with a dash, in
  their order, each without its surrounding whitespace, cut to the first five; the
  details field is their lines joined, and is absent when there are none.
\<close>

theorem details_of_notification:
  "event_details c = take 5 (map strip (filter keep_line (tl (split_on newline c))))
   \<and> field_value DetailsField (format_event_message clock ev)
       = (if event_details (content ev) = [] then None
          else Some (join [newline] (event_details (content ev))))
   \<and> description (format_event_message clock \<lparr>date = d, content = launch_party, unique_id = i\<rparr>)
       = ''**Launch Party**''
   \<and> event_title launch_party = ''Launch Party''
   \<and> field_value TimeField
        (format_event_message clock \<lparr>date = d, content = launch_party, unique_id = i\<rparr>)
       = Some ''9:00-11:00 AM''
   \<and> field_value LocationField
        (format_event_message clock \<lparr>date = d, content = launch_party, unique_id = i\<rparr>)
       = Some ''Jakarta, Indonesia''
   \<and> event_details launch_party = [''9:00-11:00 AM'', ''Jakarta, Indonesia'', ''More info'']
   \<and> ''More info'' \<in> set (event_details launch_party)
   \<and> ''- ignore this'' \<notin> set (event_details launch_party)"
proof -
  have p1: "event_details c = take 5 (map strip (filter keep_line (tl (split_on newline c))))"
    by (simp add: event_details_def collect_details_eq)
  have p2: "field_value DetailsField (format_event_message clock ev)
       = (if event_details (content ev) = [] then None
          else Some (join [newline] (event_details (content ev))))"
    by (rule field_details)
  have p4: "event_title launch_party = ''Launch Party''"
    by code_simp
  have p3: "description (format_event_message clock \<lparr>date = d, content = launch_party, unique_id = i\<rparr>)
       = ''**Launch Party**''"
    by (simp add: format_event_message_def Let_def p4)
  have "re_search time_pattern launch_party = Some ''9:00-11:00 AM''"
    by code_simp
  then have p5: "field_value TimeField
        (format_event_message clock \<lparr>date = d, content = launch_party, unique_id = i\<rparr>)
       = Some ''9:00-11:00 AM''"
    by (simp add: field_time)
  have "contains ''Jakarta, Indonesia'' launch_party"
    by code_simp
  then have p6: "field_value LocationField
        (format_event_message clock \<lparr>date = d, content = launch_party, unique_id = i\<rparr>)
       = Some ''Jakarta, Indonesia''"
    by (simp add: field_location)
  have p7: "event_details launch_party = [''9:00-11:00 AM'', ''Jakarta, Indonesia'', ''More info'']"
    by code_simp
  have p8: "''More info'' \<in> set (event_details launch_party)"
    unfolding p7 by simp
  have p9: "''- ignore this'' \<notin> set (event_details launch_party)"
    unfolding p7 by simp
  show ?thesis by (intro conjI p1 p2 p3 p4 p5 p6 p7 p8 p9)
qed

theorem details_of_notification_witness:
  "event_details padded_sample
     = take 5 (map strip (filter keep_line (tl (split_on newline padded_sample))))
   \<and> event_details padded_sample = [''padded'']"
proof -
  have "event_details padded_sample = [''padded'']"
    by code_simp
  with details_of_notification [of padded_sample, THEN conjunct1]
  show ?thesis by (intro conjI)
qed

text \<open>
  C7 as the specification words it, the details being the lines themselves, fails on a
  line with whitespace around it: of the content \<open>Title\<close>, \<open>  padded  \<close>, \<open>-no\<close> the
  details are \<open>padded\<close>, not the line \<open>  padded  \<close>.
\<close>

theorem details_of_notification_counterexample:
  "event_details padded_sample = [''padded'']
   \<and> spec_details padded_sample = [''  padded  '']
   \<and> event_details padded_sample \<noteq> spec_details padded_sample"
proof -
  have a: "event_details padded_sample = [''padded'']" by code_simp
  have b: "spec_details padded_sample = [''  padded  '']" by code_simp
  from a b show ?thesis by simp
qed

text \<open>
  C8. The title of the notification, shown in bold as the description of the embed, is
  the first line of the content: the text before the first line break. The fallback
  \<open>Event Reminder\<close> is the title of an empty list of lines, and splitting a content
  never gives an empty list.
\<close>

theorem title_is_first_line:
  "event_title c = takeWhile (\<lambda>x. x \<noteq> newline) c
   \<and> event_title c = hd (split_on newline c)
   \<and> description (format_event_message clock ev) = ''**'' @ event_title (content ev) @ ''**''
   \<and> title_of_lines [] = ''Event Reminder''
   \<and> split_on newline c \<noteq> []"
proof -
  have ne: "split_on newline c \<noteq> []" by (rule split_on_nonempty)
  then have h: "event_title c = hd (split_on newline c)"
    by (cases "split_on newline c") (simp_all add: event_title_def title_of_lines_def)
  with split_on_hd [of newline c] have t: "event_title c = takeWhile (\<lambda>x. x \<noteq> newline) c"
    by simp
  have d: "description (format_event_message clock ev) = ''**'' @ event_title (content ev) @ ''**''"
    by (simp add: format_event_message_def Let_def)
  have f: "title_of_lines [] = ''Event Reminder''"
    by (simp add: title_of_lines_def)
  show ?thesis by (intro conjI t h d f ne)
qed

theorem title_is_first_line_witness:
  "event_title launch_party = takeWhile (\<lambda>x. x \<noteq> newline) launch_party
   \<and> takeWhile (\<lambda>x. x \<noteq> newline) launch_party = ''Launch Party''
   \<and> event_title [] = []"
proof -
  have "takeWhile (\<lambda>x. x \<noteq> newline) launch_party = ''Launch Party''"
    by (simp add: launch_party_def newline_def)
  with title_is_first_line [of launch_party, THEN conjunct1]
    title_is_first_line [of "[]", THEN conjunct1]
  show ?thesis by simp
qed

text \<open>
  C9. The command \<open>stop\<close>, given while the task is running, clears the channel id at
  once and asks the loop to end: the task still counts as running until its next
  iteration, after which it is not running, the channel id still cleared. Given while
  the task is not running, \<open>stop\<close> leaves the state as it is, a channel id that is set
  included.
\<close>

theorem stop_halts:
  "(is_running s \<longrightarrow>
      task (excel_command hash env (Some ''stop'') s) = Stopping
      \<and> ANNOUNCEMENT_CHANNEL_ID (excel_command hash env (Some ''stop'') s) = None
      \<and> announced_events (excel_command hash env (Some ''stop'') s) = announced_events s
      \<and> \<not> is_running (fst (loop_iteration hash tenv (excel_command hash env (Some ''stop'') s)))
      \<and> ANNOUNCEMENT_CHANNEL_ID
           (fst (loop_iteration hash tenv (excel_command hash env (Some ''stop'') s))) = None)
   \<and> (\<not> is_running s \<longrightarrow> excel_command hash env (Some ''stop'') s = s)"
proof -
  let ?s = "excel_command hash env (Some ''stop'') s"
  have a: "?s = s\<lparr>task := Stopping, ANNOUNCEMENT_CHANNEL_ID := None\<rparr>" if "is_running s"
    using that by (simp add: excel_command_def)
  have l: "fst (loop_iteration hash tenv ?s) = (fst (check_events hash tenv ?s))\<lparr>task := Idle\<rparr>"
    if "is_running s"
    unfolding a [OF that] by (simp add: loop_iteration_def split: prod.splits)
  have p1: "is_running s \<longrightarrow>
      task ?s = Stopping \<and> ANNOUNCEMENT_CHANNEL_ID ?s = None
      \<and> announced_events ?s = announced_events s
      \<and> \<not> is_running (fst (loop_iteration hash tenv ?s))
      \<and> ANNOUNCEMENT_CHANNEL_ID (fst (loop_iteration hash tenv ?s)) = None"
  proof
    assume r: "is_running s"
    have c: "ANNOUNCEMENT_CHANNEL_ID ?s = None" "task ?s = Stopping"
      "announced_events ?s = announced_events s"
      unfolding a [OF r] by simp_all
    show "task ?s = Stopping \<and> ANNOUNCEMENT_CHANNEL_ID ?s = None
      \<and> announced_events ?s = announced_events s
      \<and> \<not> is_running (fst (loop_iteration hash tenv ?s))
      \<and> ANNOUNCEMENT_CHANNEL_ID (fst (loop_iteration hash tenv ?s)) = None"
      unfolding l [OF r] using c by (simp add: is_running_def check_events_keeps)
  qed
  have p2: "\<not> is_running s \<longrightarrow> ?s = s"
    by (simp add: excel_command_def)
  show ?thesis by (intro conjI p1 p2)
qed

theorem stop_halts_witness:
  "is_running started
   \<and> task (excel_command length_hash good_ctx (Some ''stop'') started) = Stopping
   \<and> ANNOUNCEMENT_CHANNEL_ID (excel_command length_hash good_ctx (Some ''stop'') started) = None
   \<and> \<not> is_running (fst (loop_iteration length_hash quiet_tick
           (excel_command length_hash good_ctx (Some ''stop'') started)))
   \<and> \<not> is_running initial_state
   \<and> excel_command length_hash good_ctx (Some ''stop'') initial_state = initial_state"
proof -
  have u: "is_running started"
    by (simp add: started_state is_running_def)
  have i: "\<not> is_running initial_state"
    by (simp add: initial_state_def is_running_def)
  from stop_halts [of started length_hash good_ctx quiet_tick] u
    stop_halts [of initial_state length_hash good_ctx quiet_tick] i
  show ?thesis by blast
qed

text \<open>
  C9 as the specification words it fails in a state that the process reaches with every
  reply delivered: \<open>start\<close>, \<open>stop\<close>, and \<open>start\<close> again before the loop has ended set
  the channel id while the task still counts as running, so that nothing is started;
  the loop then ends, and \<open>stop\<close>, finding the task not running, leaves the channel id
  set.
\<close>

theorem stop_halts_counterexample:
  "reachable length_hash loop_ended
   \<and> \<not> is_running loop_ended
   \<and> ANNOUNCEMENT_CHANNEL_ID loop_ended = Some 7
   \<and> ANNOUNCEMENT_CHANNEL_ID (excel_command length_hash good_ctx (Some ''stop'') loop_ended)
       = Some 7"
proof -
  have a: "\<not> is_running loop_ended"
    by (simp add: loop_ended_state is_running_def)
  have b: "ANNOUNCEMENT_CHANNEL_ID loop_ended = Some 7"
    by (simp add: loop_ended_state)
  have c: "ANNOUNCEMENT_CHANNEL_ID (excel_command length_hash good_ctx (Some ''stop'') loop_ended)
       = Some 7"
    using a b by (simp add: excel_command_def)
  show ?thesis by (intro conjI reachable_loop_ended a b c)
qed

text \<open>
  C10. A row whose content cell gives the text \<open>nan\<close>, which is not the empty string,
  is passed over like a row without content, and the events of the sheet are those of
  the other rows.
\<close>

theorem nan_text_is_skipped:
  assumes "select_cells cols row = Inr (date_value, c)"
    and "content_text c = ''nan''"
  shows "content_text c \<noteq> []
     \<and> parse_row hash cols idx row = Inr None
     \<and> parse_event_data hash \<lparr>columns = cols, rows = before @ row # after\<rparr>
         = parse_rows hash cols 0 before @ parse_rows hash cols (Suc (length before)) after"
proof -
  have "parse_row hash cols i row = Inr None" for i
    using assms by (auto intro: skipped_row)
  from this [of idx] without_row [OF this [of "length before"]] assms(2) show ?thesis by simp
qed

theorem nan_text_is_skipped_witness:
  "select_cells named_columns [Text ''05/03/24'', Text ''nan'']
     = Inr (Text ''05/03/24'', Text ''nan'')
   \<and> content_text (Text ''nan'') = ''nan''
   \<and> parse_row length_hash named_columns 1 [Text ''05/03/24'', Text ''nan''] = Inr None
   \<and> parse_event_data length_hash
        \<lparr>columns = named_columns, rows = [] @ [Text ''05/03/24'', Text ''nan''] # []\<rparr>
       = parse_rows length_hash named_columns 0 []
           @ parse_rows length_hash named_columns (Suc (length ([] :: cell list list))) []"
proof -
  have a: "select_cells named_columns [Text ''05/03/24'', Text ''nan'']
             = Inr (Text ''05/03/24'', Text ''nan'')"
    by (simp add: select_cells_def named_columns_def by_name_def)
  have b: "content_text (Text ''nan'') = ''nan''" by (simp add: content_text_def)
  from nan_text_is_skipped [OF a b, of length_hash 1 "[]" "[]"] a b
  show ?thesis by simp
qed

end
